theory Spec2Isabelle
  imports Main "HOL-Library.Word"
begin

section \<open>The audio recording frame processor\<close>

text \<open>
  A shallow embedding of \<^verbatim>\<open>app/recording_processor.py\<close>: the class
  \<^verbatim>\<open>AudioRecordingProcessor\<close>, a Pipecat frame processor that records the audio frames
  passing through it and pushes every frame on to the next processor.

  The processor's fields are a record. Everything a method does to the outside (a call on
  the recorder, the call of the parent class's frame handler, a \<^verbatim>\<open>push_frame\<close>, a log
  line) is an effect, and each method returns the updated processor together with the
  effects it performed, in program order.
\<close>

subsection \<open>Frames\<close>

type_synonym byte = "8 word"

datatype frame_direction = DOWNSTREAM | UPSTREAM

text \<open>
  The three audio classes the processor tells apart with \<^verbatim>\<open>isinstance\<close>.
  \<^verbatim>\<open>AudioRawFrame\<close> stands for an audio frame that is neither an input nor an output
  frame (the legacy case of the source).
\<close>

datatype audio_class = AudioRawFrame | InputAudioRawFrame | OutputAudioRawFrame

text \<open>
  A frame is a start frame, an end frame, an audio frame (its class, \<^verbatim>\<open>audio\<close>,
  \<^verbatim>\<open>sample_rate\<close>, \<^verbatim>\<open>num_channels\<close>) or a frame of any other class, given by its
  class name.
\<close>

datatype frame =
    StartFrame
  | EndFrame
  | AudioFrame audio_class "byte list" nat nat
  | OtherFrame string

text \<open>\<^verbatim>\<open>type(frame).__name__\<close>, as the log lines print it.\<close>

fun type_name :: "frame \<Rightarrow> string" where
  "type_name StartFrame = ''StartFrame''"
| "type_name EndFrame = ''EndFrame''"
| "type_name (AudioFrame AudioRawFrame audio sr nc) = ''AudioRawFrame''"
| "type_name (AudioFrame InputAudioRawFrame audio sr nc) = ''InputAudioRawFrame''"
| "type_name (AudioFrame OutputAudioRawFrame audio sr nc) = ''OutputAudioRawFrame''"
| "type_name (OtherFrame name) = name"

subsection \<open>The recorder and the effects\<close>

type_synonym recorder_ref = nat

text \<open>
  Modelled from the spec: the class \<^verbatim>\<open>AudioRecorder\<close> of \<^verbatim>\<open>app/audio_recorder.py\<close> is
  not among the sources. The spec gives it as an opaque sink with the four methods below,
  none of which returns a value to the processor or raises into it. A recorder object is
  a reference; an object of the class is truthy, so that \<^verbatim>\<open>if self.recorder\<close> asks whether
  the field holds a reference.
\<close>

datatype recorder_call =
    start_recording string
  | record_input_audio "byte list"
  | record_output_audio "byte list"
  | stop_recording

datatype log_level = DEBUG | INFO

text \<open>The log lines of the source, each with the values it formats.\<close>

datatype log_msg =
    Started_recording string
  | Received_StartFrame
  | Received_audio string nat
  | Recording_output nat nat string
  | Output_in_input_processor
  | Recording_input nat nat
  | Input_in_output_processor
  | Recording_input_legacy nat nat
  | Recording_output_legacy nat nat
  | Stopped_recording string
  | Pushing string

datatype effect =
    New_recorder recorder_ref
  | Call recorder_ref recorder_call
  | Super_process_frame frame frame_direction
  | Push_frame frame frame_direction
  | Log log_level log_msg

subsection \<open>The processor\<close>

record processor =
  enable_recording :: bool
  client_id :: string
  record_input :: bool
  recorder :: "recorder_ref option"

text \<open>
  \<^verbatim>\<open>__init__\<close>. The last argument is the reference that \<^verbatim>\<open>AudioRecorder()\<close> returns if
  the constructor creates a recorder. \<^verbatim>\<open>client_id or "unknown"\<close> replaces both
  \<^verbatim>\<open>None\<close> and the empty string. The constructor of the parent class, called first,
  touches none of the four fields and no recorder.
\<close>

definition init ::
  "bool \<Rightarrow> string option \<Rightarrow> bool \<Rightarrow> recorder_ref option \<Rightarrow> recorder_ref
     \<Rightarrow> processor \<times> effect list" where
  "init enable cid rec_input shared_recorder fresh =
     (let self = \<lparr>enable_recording = enable,
                  client_id = (case cid of
                                 None \<Rightarrow> ''unknown''
                               | Some s \<Rightarrow> if s = [] then ''unknown'' else s),
                  record_input = rec_input,
                  recorder = shared_recorder\<rparr>
      in if enable_recording self \<and> recorder self = None
         then (self\<lparr>recorder := Some fresh\<rparr>,
               [New_recorder fresh,
                Call fresh (start_recording (client_id self)),
                Log INFO (Started_recording (client_id self))])
         else (self, []))"

text \<open>The sample count of line 63: \<^verbatim>\<open>len(audio_bytes) // 2\<close>.\<close>

definition num_samples :: "byte list \<Rightarrow> nat" where
  "num_samples audio_bytes = length audio_bytes div 2"

text \<open>
  \<^verbatim>\<open>process_frame\<close>. The first argument stands for the expression that computes
  \<^verbatim>\<open>num_samples\<close>; the method itself is \<open>process_frame\<close> below, which passes
  \<^const>\<open>num_samples\<close>. Keeping it a parameter lets one state that nothing but the log
  lines depends on the sample count.
\<close>

fun process_frame_with ::
  "(byte list \<Rightarrow> nat) \<Rightarrow> processor \<Rightarrow> frame \<Rightarrow> frame_direction \<Rightarrow> processor \<times> effect list" where
  "process_frame_with ns self StartFrame direction =
     (self, [Log DEBUG Received_StartFrame,
             Super_process_frame StartFrame direction,
             Push_frame StartFrame direction])"
| "process_frame_with ns self (AudioFrame cls audio_bytes sr nc) direction =
     (let frame = AudioFrame cls audio_bytes sr nc in
      (self,
       Log DEBUG (Received_audio (type_name frame) (length audio_bytes)) #
       (case recorder self of
          None \<Rightarrow> []
        | Some r \<Rightarrow>
            (case cls of
               OutputAudioRawFrame \<Rightarrow>
                 if \<not> record_input self
                 then [Log INFO (Recording_output (length audio_bytes) (ns audio_bytes)
                                   (type_name frame)),
                       Call r (record_output_audio audio_bytes)]
                 else [Log DEBUG Output_in_input_processor]
             | InputAudioRawFrame \<Rightarrow>
                 if record_input self
                 then [Log INFO (Recording_input (length audio_bytes) (ns audio_bytes)),
                       Call r (record_input_audio audio_bytes)]
                 else [Log DEBUG Input_in_output_processor]
             | AudioRawFrame \<Rightarrow>
                 if record_input self
                 then [Log INFO (Recording_input_legacy (length audio_bytes) (ns audio_bytes)),
                       Call r (record_input_audio audio_bytes)]
                 else [Log INFO (Recording_output_legacy (length audio_bytes) (ns audio_bytes)),
                       Call r (record_output_audio audio_bytes)])) @
       [Log DEBUG (Pushing (type_name frame)), Push_frame frame direction]))"
| "process_frame_with ns self EndFrame direction =
     (case recorder self of
        None \<Rightarrow>
          (self, [Log DEBUG (Pushing (type_name EndFrame)), Push_frame EndFrame direction])
      | Some r \<Rightarrow>
          if record_input self
          then (self\<lparr>recorder := None\<rparr>,
                [Call r stop_recording,
                 Log INFO (Stopped_recording (client_id self)),
                 Log DEBUG (Pushing (type_name EndFrame)),
                 Push_frame EndFrame direction])
          else (self, [Log DEBUG (Pushing (type_name EndFrame)),
                       Push_frame EndFrame direction]))"
| "process_frame_with ns self (OtherFrame name) direction =
     (self, [Log DEBUG (Pushing (type_name (OtherFrame name))),
             Push_frame (OtherFrame name) direction])"

definition process_frame ::
  "processor \<Rightarrow> frame \<Rightarrow> frame_direction \<Rightarrow> processor \<times> effect list" where
  "process_frame = process_frame_with num_samples"

text \<open>\<^verbatim>\<open>cleanup\<close>.\<close>

definition cleanup :: "processor \<Rightarrow> processor \<times> effect list" where
  "cleanup self =
     (case recorder self of
        None \<Rightarrow> (self, [])
      | Some r \<Rightarrow>
          if record_input self
          then (self\<lparr>recorder := None\<rparr>, [Call r stop_recording])
          else (self, []))"

subsection \<open>Streams of frames\<close>

text \<open>
  The pipeline hands the processor one frame after the other; \<open>feed\<close> is that sequence
  of \<^verbatim>\<open>process_frame\<close> calls on one processor.
\<close>

fun feed :: "processor \<Rightarrow> (frame \<times> frame_direction) list \<Rightarrow> processor \<times> effect list" where
  "feed self [] = (self, [])"
| "feed self ((frame, direction) # rest) =
     (let (self1, es1) = process_frame self frame direction;
          (self2, es2) = feed self1 rest
      in (self2, es1 @ es2))"

text \<open>The recorder calls, the pushed frames and the logged sample counts of a trace.\<close>

fun calls :: "effect list \<Rightarrow> (recorder_ref \<times> recorder_call) list" where
  "calls [] = []"
| "calls (Call r c # es) = (r, c) # calls es"
| "calls (e # es) = calls es"

fun pushed :: "effect list \<Rightarrow> (frame \<times> frame_direction) list" where
  "pushed [] = []"
| "pushed (Push_frame f d # es) = (f, d) # pushed es"
| "pushed (e # es) = pushed es"

fun is_log :: "effect \<Rightarrow> bool" where
  "is_log (Log l m) = True"
| "is_log e = False"

definition not_logs :: "effect list \<Rightarrow> effect list" where
  "not_logs es = filter (\<lambda>e. \<not> is_log e) es"

fun logged_samples :: "effect list \<Rightarrow> nat list" where
  "logged_samples [] = []"
| "logged_samples (Log l (Recording_output n k t) # es) = k # logged_samples es"
| "logged_samples (Log l (Recording_input n k) # es) = k # logged_samples es"
| "logged_samples (Log l (Recording_input_legacy n k) # es) = k # logged_samples es"
| "logged_samples (Log l (Recording_output_legacy n k) # es) = k # logged_samples es"
| "logged_samples (e # es) = logged_samples es"

subsection \<open>Two processors on one recorder\<close>

text \<open>
  The pipeline of the application holds two processors, one before and one after the
  service, which may hold the same recorder. An event delivers a frame to one of them or
  calls its \<^verbatim>\<open>cleanup\<close>; the trace tells which processor performed each effect.
\<close>

datatype side = Input_side | Output_side

datatype event = Deliver side frame frame_direction | Cleanup side

fun step :: "processor \<times> processor \<Rightarrow> event \<Rightarrow> (processor \<times> processor) \<times> (side \<times> effect) list" where
  "step (pin, pout) (Deliver Input_side f d) =
     (let (p, es) = process_frame pin f d in ((p, pout), map (Pair Input_side) es))"
| "step (pin, pout) (Deliver Output_side f d) =
     (let (p, es) = process_frame pout f d in ((pin, p), map (Pair Output_side) es))"
| "step (pin, pout) (Cleanup Input_side) =
     (let (p, es) = cleanup pin in ((p, pout), map (Pair Input_side) es))"
| "step (pin, pout) (Cleanup Output_side) =
     (let (p, es) = cleanup pout in ((pin, p), map (Pair Output_side) es))"

fun run :: "processor \<times> processor \<Rightarrow> event list \<Rightarrow> (processor \<times> processor) \<times> (side \<times> effect) list" where
  "run sys [] = (sys, [])"
| "run sys (ev # evs) =
     (let (sys1, es1) = step sys ev;
          (sys2, es2) = run sys1 evs
      in (sys2, es1 @ es2))"

text \<open>The frames delivered to one side, and the \<^verbatim>\<open>stop_recording\<close> calls of a trace.\<close>

fun delivered :: "side \<Rightarrow> event list \<Rightarrow> frame list" where
  "delivered s [] = []"
| "delivered s (Deliver s' f d # evs) =
     (if s' = s then f # delivered s evs else delivered s evs)"
| "delivered s (Cleanup s' # evs) = delivered s evs"

fun stops :: "(side \<times> effect) list \<Rightarrow> (side \<times> recorder_ref) list" where
  "stops [] = []"
| "stops ((s, Call r stop_recording) # es) = (s, r) # stops es"
| "stops (e # es) = stops es"

fun is_audio :: "frame \<Rightarrow> bool" where
  "is_audio (AudioFrame cls audio sr nc) = True"
| "is_audio f = False"

text \<open>The events at which the input-side processor may stop its recorder.\<close>

fun stops_input :: "event \<Rightarrow> bool" where
  "stops_input (Deliver Input_side EndFrame d) = True"
| "stops_input (Cleanup Input_side) = True"
| "stops_input ev = False"

section \<open>Properties\<close>

subsection \<open>Auxiliary facts\<close>

lemma calls_append: "calls (xs @ ys) = calls xs @ calls ys"
  by (induction xs rule: calls.induct) simp_all

lemma pushed_append: "pushed (xs @ ys) = pushed xs @ pushed ys"
  by (induction xs rule: pushed.induct) simp_all

lemma pushed_process_frame_with:
  "pushed (snd (process_frame_with ns self f d)) = [(f, d)]"
  by (cases f) (auto simp: Let_def pushed_append split: option.splits audio_class.splits)

lemma pushed_process_frame: "pushed (snd (process_frame self f d)) = [(f, d)]"
  by (simp add: process_frame_def pushed_process_frame_with)

lemma feed_Cons_fst:
  "fst (feed self ((f, d) # fs)) = fst (feed (fst (process_frame self f d)) fs)"
  by (simp add: case_prod_beta)

lemma feed_Cons_snd:
  "snd (feed self ((f, d) # fs)) =
     snd (process_frame self f d) @ snd (feed (fst (process_frame self f d)) fs)"
  by (simp add: case_prod_beta)

lemma process_frame_no_recorder:
  "recorder self = None \<Longrightarrow>
     fst (process_frame self f d) = self \<and> calls (snd (process_frame self f d)) = []"
  by (cases f) (simp_all add: process_frame_def Let_def)

lemma feed_no_recorder:
  "recorder self = None \<Longrightarrow> fst (feed self fs) = self \<and> calls (snd (feed self fs)) = []"
proof (induction fs arbitrary: self)
  case Nil
  show ?case by simp
next
  case (Cons fd fs)
  obtain f d where fd: "fd = (f, d)" by (cases fd)
  from Cons.prems have step: "fst (process_frame self f d) = self"
    "calls (snd (process_frame self f d)) = []"
    by (simp_all add: process_frame_no_recorder)
  from Cons.IH [OF Cons.prems] show ?case
    unfolding fd feed_Cons_fst feed_Cons_snd calls_append step by simp
qed

lemma end_frame_input:
  "record_input self \<Longrightarrow> recorder self = Some r \<Longrightarrow>
     process_frame self EndFrame d =
       (self\<lparr>recorder := None\<rparr>,
        [Call r stop_recording, Log INFO (Stopped_recording (client_id self)),
         Log DEBUG (Pushing ''EndFrame''), Push_frame EndFrame d])"
  by (simp add: process_frame_def)

lemma feed_after_end_frame:
  assumes "record_input self" and "recorder self = Some r"
  shows "calls (snd (feed self ((EndFrame, d) # fs))) = [(r, stop_recording)]
         \<and> recorder (fst (feed self ((EndFrame, d) # fs))) = None"
proof -
  have none: "recorder (self\<lparr>recorder := None\<rparr>) = None" by simp
  show ?thesis
    unfolding feed_Cons_snd feed_Cons_fst calls_append end_frame_input [OF assms]
    using feed_no_recorder [OF none, of fs] by simp
qed

lemma process_frame_output_side:
  "\<not> record_input self \<Longrightarrow> fst (process_frame self f d) = self"
  by (cases f) (simp_all add: process_frame_def Let_def split: option.splits)

lemma feed_output_side: "\<not> record_input self \<Longrightarrow> fst (feed self fs) = self"
proof (induction fs arbitrary: self)
  case Nil
  show ?case by simp
next
  case (Cons fd fs)
  obtain f d where fd: "fd = (f, d)" by (cases fd)
  show ?case
    unfolding fd feed_Cons_fst process_frame_output_side [OF Cons.prems]
    by (rule Cons.IH [OF Cons.prems])
qed

lemma output_side_records:
  "\<not> record_input self \<Longrightarrow> recorder self = Some r \<Longrightarrow> cls \<noteq> InputAudioRawFrame \<Longrightarrow>
     calls (snd (process_frame self (AudioFrame cls audio sr nc) d)) = [(r, record_output_audio audio)]"
  by (cases cls) (simp_all add: process_frame_def Let_def calls_append)

lemma init_disabled:
  "init False cid rec_input shared fresh =
     (\<lparr>enable_recording = False,
       client_id = (case cid of None \<Rightarrow> ''unknown'' | Some s \<Rightarrow> if s = [] then ''unknown'' else s),
       record_input = rec_input, recorder = shared\<rparr>, [])"
  by (simp add: init_def Let_def)

lemma process_frame_never_starts:
  "(r, start_recording s) \<notin> set (calls (snd (process_frame self f d)))"
  by (cases f)
     (auto simp: process_frame_def Let_def calls_append split: option.splits audio_class.splits)

lemma feed_never_starts: "(r, start_recording s) \<notin> set (calls (snd (feed self fs)))"
proof (induction fs arbitrary: self)
  case Nil
  show ?case by simp
next
  case (Cons fd fs)
  obtain f d where fd: "fd = (f, d)" by (cases fd)
  show ?case
    unfolding fd feed_Cons_snd calls_append
    using process_frame_never_starts [of r s self f d] Cons.IH by simp
qed

lemma process_frame_enable_recording:
  "process_frame (self\<lparr>enable_recording := b\<rparr>) f d =
     ((fst (process_frame self f d))\<lparr>enable_recording := b\<rparr>, snd (process_frame self f d))"
  by (cases f) (auto simp: process_frame_def Let_def split: option.splits)

lemma feed_enable_recording:
  "feed (self\<lparr>enable_recording := b\<rparr>) fs =
     ((fst (feed self fs))\<lparr>enable_recording := b\<rparr>, snd (feed self fs))"
proof (induction fs arbitrary: self)
  case Nil
  show ?case by simp
next
  case (Cons fd fs)
  obtain f d where fd: "fd = (f, d)" by (cases fd)
  show ?case
    unfolding fd by (simp add: case_prod_beta process_frame_enable_recording Cons.IH)
qed

lemma init_shared:
  "init enable cid rec_input (Some r) fresh =
     (\<lparr>enable_recording = enable,
       client_id = (case cid of None \<Rightarrow> ''unknown'' | Some s \<Rightarrow> if s = [] then ''unknown'' else s),
       record_input = rec_input, recorder = Some r\<rparr>, [])"
  by (simp add: init_def Let_def)

lemma feed_init_shared:
  "snd (feed (fst (init False cid rec_input (Some r) fresh)) fs) =
     snd (feed (fst (init True cid rec_input (Some r) fresh)) fs)"
proof -
  have "fst (init False cid rec_input (Some r) fresh) =
          (fst (init True cid rec_input (Some r) fresh))\<lparr>enable_recording := False\<rparr>"
    by (simp add: init_shared)
  then show ?thesis by (simp only: feed_enable_recording snd_conv)
qed

lemma logged_samples_append:
  "logged_samples (xs @ ys) = logged_samples xs @ logged_samples ys"
  by (induction xs rule: logged_samples.induct) simp_all

lemma logged_samples_audio:
  "logged_samples (snd (process_frame self (AudioFrame cls bs sr nc) d)) =
     (case recorder self of
        None \<Rightarrow> []
      | Some r \<Rightarrow> if (cls = OutputAudioRawFrame \<and> record_input self)
                      \<or> (cls = InputAudioRawFrame \<and> \<not> record_input self)
                  then [] else [num_samples bs])"
  by (cases cls)
     (simp_all add: process_frame_def Let_def logged_samples_append split: option.splits)

lemma process_frame_with_control_flow:
  "fst (process_frame_with ns self f d) = fst (process_frame_with ns' self f d)
   \<and> not_logs (snd (process_frame_with ns self f d))
       = not_logs (snd (process_frame_with ns' self f d))"
  by (cases f)
     (auto simp: Let_def not_logs_def split: option.splits audio_class.splits)

lemma stops_append: "stops (xs @ ys) = stops xs @ stops ys"
  by (induction xs rule: stops.induct) simp_all

lemma stops_process_frame:
  "stops (map (Pair s) (snd (process_frame self f d))) =
     (case recorder self of
        None \<Rightarrow> []
      | Some r \<Rightarrow> if f = EndFrame \<and> record_input self then [(s, r)] else [])"
  by (cases f)
     (auto simp: process_frame_def Let_def stops_append split: option.splits audio_class.splits)

lemma stops_cleanup:
  "stops (map (Pair s) (snd (cleanup self))) =
     (case recorder self of
        None \<Rightarrow> []
      | Some r \<Rightarrow> if record_input self then [(s, r)] else [])"
  by (simp add: cleanup_def split: option.splits)

lemma fst_process_frame:
  "fst (process_frame self f d) =
     (if f = EndFrame \<and> record_input self \<and> recorder self \<noteq> None
      then self\<lparr>recorder := None\<rparr> else self)"
  by (cases f) (auto simp: process_frame_def Let_def split: option.splits)

lemma fst_cleanup:
  "fst (cleanup self) =
     (if record_input self \<and> recorder self \<noteq> None then self\<lparr>recorder := None\<rparr> else self)"
  by (simp add: cleanup_def split: option.splits)

lemma run_Cons_snd:
  "snd (run sys (ev # evs)) = snd (step sys ev) @ snd (run (fst (step sys ev)) evs)"
  by (simp add: case_prod_beta)

lemma step_fst:
  "fst (step (pin, pout) ev) =
     (case ev of
        Deliver Input_side f d \<Rightarrow> (fst (process_frame pin f d), pout)
      | Deliver Output_side f d \<Rightarrow> (pin, fst (process_frame pout f d))
      | Cleanup Input_side \<Rightarrow> (fst (cleanup pin), pout)
      | Cleanup Output_side \<Rightarrow> (pin, fst (cleanup pout)))"
  by (cases ev) (auto simp: case_prod_beta split: side.splits)

lemma step_stops:
  "stops (snd (step (pin, pout) ev)) =
     (case ev of
        Deliver Input_side f d \<Rightarrow> stops (map (Pair Input_side) (snd (process_frame pin f d)))
      | Deliver Output_side f d \<Rightarrow> stops (map (Pair Output_side) (snd (process_frame pout f d)))
      | Cleanup Input_side \<Rightarrow> stops (map (Pair Input_side) (snd (cleanup pin)))
      | Cleanup Output_side \<Rightarrow> stops (map (Pair Output_side) (snd (cleanup pout))))"
  by (cases ev) (auto simp: case_prod_beta split: side.splits)

lemma run_stopped:
  "\<not> record_input pout \<Longrightarrow> recorder pin = None \<Longrightarrow> stops (snd (run (pin, pout) evs)) = []"
proof (induction evs)
  case Nil
  show ?case by simp
next
  case (Cons ev evs)
  from Cons.prems have s: "fst (step (pin, pout) ev) = (pin, pout)"
    by (simp add: step_fst fst_process_frame fst_cleanup split: event.splits side.splits)
  from Cons.prems have t: "stops (snd (step (pin, pout) ev)) = []"
    by (simp add: step_stops stops_process_frame stops_cleanup
             split: event.splits side.splits option.splits)
  show ?case
    unfolding run_Cons_snd stops_append s t using Cons.IH [OF Cons.prems] by simp
qed

lemma run_stops:
  assumes "record_input pin" and "\<not> record_input pout" and "recorder pin = Some r"
  shows "stops (snd (run (pin, pout) evs)) =
           (if list_ex stops_input evs then [(Input_side, r)] else [])"
proof (induction evs)
  case Nil
  show ?case by simp
next
  case (Cons ev evs)
  show ?case
  proof (cases "stops_input ev")
    case True
    with assms have s: "fst (step (pin, pout) ev) = (pin\<lparr>recorder := None\<rparr>, pout)"
      by (cases ev rule: stops_input.cases)
         (simp_all add: case_prod_beta fst_process_frame fst_cleanup)
    from True assms have t: "stops (snd (step (pin, pout) ev)) = [(Input_side, r)]"
      by (cases ev rule: stops_input.cases)
         (simp_all add: case_prod_beta stops_process_frame stops_cleanup)
    have "stops (snd (run (pin\<lparr>recorder := None\<rparr>, pout) evs)) = []"
      using assms(2) by (intro run_stopped) simp_all
    with True show ?thesis
      unfolding run_Cons_snd stops_append s t by simp
  next
    case False
    with assms have s: "fst (step (pin, pout) ev) = (pin, pout)"
      by (cases ev rule: stops_input.cases)
         (simp_all add: case_prod_beta step_fst fst_process_frame fst_cleanup split: side.splits)
    from False assms have t: "stops (snd (step (pin, pout) ev)) = []"
      by (cases ev rule: stops_input.cases)
         (simp_all add: case_prod_beta step_stops stops_process_frame stops_cleanup
            split: side.splits option.splits)
    from False show ?thesis
      unfolding run_Cons_snd stops_append s t using Cons.IH by simp
  qed
qed

lemma delivered_end_frame:
  "EndFrame \<in> set (delivered Input_side evs) \<Longrightarrow> list_ex stops_input evs"
proof (induction evs)
  case Nil
  then show ?case by simp
next
  case (Cons ev evs)
  then show ?case
    by (cases ev rule: stops_input.cases) (auto split: if_splits)
qed

subsection \<open>Pass-through\<close>

text \<open>
  Claim C2. Whatever the processor's configuration (recording enabled or not, input or
  output side, recorder attached or not), feeding it a sequence of frames pushes exactly
  those frames, each once, in the order received, each unchanged and with the direction
  it came with.
\<close>

theorem feed_forwards_all: "pushed (snd (feed self fs)) = fs"
proof (induction fs arbitrary: self)
  case Nil
  show ?case by simp
next
  case (Cons fd fs)
  obtain f d where fd: "fd = (f, d)" by (cases fd)
  show ?case
    unfolding fd feed_Cons_snd pushed_append
    by (simp only: pushed_process_frame Cons.IH append.simps)
qed

theorem feed_forwards_all_witness:
  "pushed (snd (feed (fst (init True None True None 0))
     [(StartFrame, DOWNSTREAM), (AudioFrame InputAudioRawFrame [1, 2, 3] 16000 1, DOWNSTREAM),
      (OtherFrame ''TextFrame'', UPSTREAM), (EndFrame, DOWNSTREAM), (EndFrame, DOWNSTREAM)]))
   = [(StartFrame, DOWNSTREAM), (AudioFrame InputAudioRawFrame [1, 2, 3] 16000 1, DOWNSTREAM),
      (OtherFrame ''TextFrame'', UPSTREAM), (EndFrame, DOWNSTREAM), (EndFrame, DOWNSTREAM)]"
  by (rule feed_forwards_all)

text \<open>
  Claim C8. On a start frame the processor first calls the frame handler of its parent
  class, then pushes the frame unchanged; it calls no recorder method and leaves its
  recorder reference as it was.
\<close>

theorem start_frame_passthrough:
  "process_frame self StartFrame d =
     (self, [Log DEBUG Received_StartFrame, Super_process_frame StartFrame d, Push_frame StartFrame d])
   \<and> not_logs (snd (process_frame self StartFrame d)) =
       [Super_process_frame StartFrame d, Push_frame StartFrame d]
   \<and> calls (snd (process_frame self StartFrame d)) = []
   \<and> recorder (fst (process_frame self StartFrame d)) = recorder self"
  by (simp add: process_frame_def not_logs_def)

theorem start_frame_passthrough_witness:
  "process_frame \<lparr>enable_recording = True, client_id = ''c1'', record_input = True,
                   recorder = Some 7\<rparr> StartFrame DOWNSTREAM =
     (\<lparr>enable_recording = True, client_id = ''c1'', record_input = True, recorder = Some 7\<rparr>,
      [Log DEBUG Received_StartFrame, Super_process_frame StartFrame DOWNSTREAM,
       Push_frame StartFrame DOWNSTREAM])"
  using start_frame_passthrough
    [of "\<lparr>enable_recording = True, client_id = ''c1'', record_input = True, recorder = Some 7\<rparr>"
        DOWNSTREAM]
  by simp

subsection \<open>Routing of audio frames\<close>

text \<open>
  Claim C3. An output-side processor (\<open>record_input\<close> false) that processes an input
  audio frame calls neither \<^verbatim>\<open>record_input_audio\<close> nor \<^verbatim>\<open>record_output_audio\<close>, and
  an input-side processor that processes an output audio frame calls neither as well.
\<close>

theorem direction_isolation:
  "(\<not> record_input self \<longrightarrow>
      calls (snd (process_frame self (AudioFrame InputAudioRawFrame audio sr nc) d)) = [])
   \<and> (record_input self \<longrightarrow>
      calls (snd (process_frame self (AudioFrame OutputAudioRawFrame audio sr nc) d)) = [])"
  by (simp add: process_frame_def Let_def calls_append split: option.splits)

theorem direction_isolation_witness:
  "calls (snd (process_frame \<lparr>enable_recording = True, client_id = ''c1'', record_input = False,
                              recorder = Some 7\<rparr>
                (AudioFrame InputAudioRawFrame [1, 2, 3, 4] 16000 1) DOWNSTREAM)) = []
   \<and> calls (snd (process_frame \<lparr>enable_recording = True, client_id = ''c1'', record_input = True,
                              recorder = Some 7\<rparr>
                (AudioFrame OutputAudioRawFrame [1, 2, 3, 4] 24000 1) DOWNSTREAM)) = []"
  using direction_isolation
    [of "\<lparr>enable_recording = True, client_id = ''c1'', record_input = False, recorder = Some 7\<rparr>"
        "[1, 2, 3, 4]" 16000 1 DOWNSTREAM]
    direction_isolation
    [of "\<lparr>enable_recording = True, client_id = ''c1'', record_input = True, recorder = Some 7\<rparr>"
        "[1, 2, 3, 4]" 24000 1 DOWNSTREAM]
  by simp

text \<open>
  Claim C4. A processor with a recorder attached that processes a legacy audio frame
  (one that is neither an input nor an output frame) calls \<^verbatim>\<open>record_input_audio\<close> with
  the frame's bytes if it is the input-side processor and \<^verbatim>\<open>record_output_audio\<close> with
  them otherwise, whatever the sample rate and channel count of the frame.
\<close>

theorem legacy_chunk_by_configuration:
  assumes "recorder self = Some r"
  shows "calls (snd (process_frame self (AudioFrame AudioRawFrame audio sr nc) d)) =
           [(r, if record_input self then record_input_audio audio else record_output_audio audio)]"
  using assms by (simp add: process_frame_def Let_def calls_append)

theorem legacy_chunk_by_configuration_witness:
  "calls (snd (process_frame \<lparr>enable_recording = True, client_id = ''c1'', record_input = False,
                              recorder = Some 7\<rparr>
                (AudioFrame AudioRawFrame [1, 2, 3, 4] 16000 1) DOWNSTREAM))
     = [(7, record_output_audio [1, 2, 3, 4])]"
  using legacy_chunk_by_configuration
    [of "\<lparr>enable_recording = True, client_id = ''c1'', record_input = False, recorder = Some 7\<rparr>"
        7 "[1, 2, 3, 4]" 16000 1 DOWNSTREAM]
  by simp

subsection \<open>Stopping the recorder\<close>

text \<open>
  Claim C5. An input-side processor with a recorder attached that processes an end frame
  calls \<^verbatim>\<open>stop_recording\<close> once and clears its recorder reference. A second end frame
  is then a no-op for the recorder, so that two end frames give one \<^verbatim>\<open>stop_recording\<close>
  call in total, and whatever frames follow the first end frame, no further recorder call
  is made (nor by a later \<^verbatim>\<open>cleanup\<close>).
\<close>

theorem end_frame_stops_once:
  assumes "record_input self" and "recorder self = Some r"
  shows "process_frame self EndFrame d =
           (self\<lparr>recorder := None\<rparr>,
            [Call r stop_recording, Log INFO (Stopped_recording (client_id self)),
             Log DEBUG (Pushing ''EndFrame''), Push_frame EndFrame d])
         \<and> calls (snd (feed self [(EndFrame, d), (EndFrame, d')])) = [(r, stop_recording)]
         \<and> calls (snd (feed self ((EndFrame, d) # fs))) = [(r, stop_recording)]
         \<and> recorder (fst (feed self ((EndFrame, d) # fs))) = None
         \<and> calls (snd (cleanup (fst (feed self ((EndFrame, d) # fs))))) = []"
  using end_frame_input [OF assms, of d] feed_after_end_frame [OF assms, of d fs]
    feed_after_end_frame [OF assms, of d "[(EndFrame, d')]"]
  by (simp add: cleanup_def)

theorem end_frame_stops_once_witness:
  "record_input \<lparr>enable_recording = True, client_id = ''c1'', record_input = True,
                  recorder = Some 7\<rparr>
   \<and> recorder \<lparr>enable_recording = True, client_id = ''c1'', record_input = True,
                  recorder = Some 7\<rparr> = Some 7
   \<and> calls (snd (feed \<lparr>enable_recording = True, client_id = ''c1'', record_input = True,
                     recorder = Some 7\<rparr>
                [(EndFrame, DOWNSTREAM), (EndFrame, DOWNSTREAM)])) = [(7, stop_recording)]
   \<and> calls (snd (feed \<lparr>enable_recording = True, client_id = ''c1'', record_input = True,
                     recorder = Some 7\<rparr>
                [(EndFrame, DOWNSTREAM), (AudioFrame InputAudioRawFrame [1, 2] 16000 1, DOWNSTREAM),
                 (AudioFrame AudioRawFrame [3, 4] 16000 1, DOWNSTREAM), (EndFrame, UPSTREAM)]))
       = [(7, stop_recording)]"
proof -
  let ?p = "\<lparr>enable_recording = True, client_id = ''c1'', record_input = True,
              recorder = Some (7::nat)\<rparr>"
  have a: "record_input ?p" by simp
  have b: "recorder ?p = Some 7" by simp
  from a b end_frame_stops_once
    [OF a b, of DOWNSTREAM DOWNSTREAM
        "[(AudioFrame InputAudioRawFrame [1, 2] 16000 1, DOWNSTREAM),
          (AudioFrame AudioRawFrame [3, 4] 16000 1, DOWNSTREAM), (EndFrame, UPSTREAM)]"]
  show ?thesis by blast
qed

text \<open>
  Claim C6. Two processors, the input-side one and the output-side one, hold the same
  recorder. Each side is delivered one start frame, any number of audio frames and one end
  frame, the two streams interleaved in any way and with \<^verbatim>\<open>cleanup\<close> calls anywhere.
  Then \<^verbatim>\<open>stop_recording\<close> is called exactly once in total, by the input-side processor.
  Under any sequence of events at all, the output-side processor never calls
  \<^verbatim>\<open>stop_recording\<close>, neither when processing a frame nor in \<^verbatim>\<open>cleanup\<close>.
\<close>

theorem shared_recorder_stopped_once:
  assumes "record_input pin" and "\<not> record_input pout"
    and "recorder pin = Some r" and "recorder pout = Some r"
    and "delivered Input_side evs = StartFrame # chunks_in @ [EndFrame]"
    and "delivered Output_side evs = StartFrame # chunks_out @ [EndFrame]"
    and "list_all is_audio chunks_in" and "list_all is_audio chunks_out"
  shows "stops (snd (run (pin, pout) evs)) = [(Input_side, r)]
         \<and> (Output_side, r') \<notin> set (stops (snd (run (pin, pout) evs')))"
proof -
  from assms(5) have "EndFrame \<in> set (delivered Input_side evs)" by simp
  then have "list_ex stops_input evs" by (rule delivered_end_frame)
  then have "stops (snd (run (pin, pout) evs)) = [(Input_side, r)]"
    by (simp add: run_stops [OF assms(1-3)])
  moreover have "(Output_side, r') \<notin> set (stops (snd (run (pin, pout) evs')))"
    by (simp add: run_stops [OF assms(1-3)])
  ultimately show ?thesis by simp
qed

theorem shared_recorder_stopped_once_witness:
  "record_input (fst (init True (Some ''c1'') True None 0))
   \<and> \<not> record_input (fst (init True (Some ''c1'') False (Some 0) 1))
   \<and> recorder (fst (init True (Some ''c1'') True None 0)) = Some 0
   \<and> recorder (fst (init True (Some ''c1'') False (Some 0) 1)) = Some 0
   \<and> stops (snd (run (fst (init True (Some ''c1'') True None 0),
                      fst (init True (Some ''c1'') False (Some 0) 1))
        [Deliver Input_side StartFrame DOWNSTREAM,
         Deliver Output_side StartFrame DOWNSTREAM,
         Deliver Input_side (AudioFrame InputAudioRawFrame [1, 2] 16000 1) DOWNSTREAM,
         Deliver Output_side (AudioFrame OutputAudioRawFrame [3, 4] 24000 1) DOWNSTREAM,
         Deliver Output_side EndFrame DOWNSTREAM,
         Cleanup Output_side,
         Deliver Input_side EndFrame DOWNSTREAM,
         Cleanup Input_side])) = [(Input_side, 0)]"
proof -
  let ?pin = "fst (init True (Some ''c1'') True None 0)"
  let ?pout = "fst (init True (Some ''c1'') False (Some 0) 1)"
  let ?evs = "[Deliver Input_side StartFrame DOWNSTREAM,
         Deliver Output_side StartFrame DOWNSTREAM,
         Deliver Input_side (AudioFrame InputAudioRawFrame [1, 2] 16000 1) DOWNSTREAM,
         Deliver Output_side (AudioFrame OutputAudioRawFrame [3, 4] 24000 1) DOWNSTREAM,
         Deliver Output_side EndFrame DOWNSTREAM,
         Cleanup Output_side,
         Deliver Input_side EndFrame DOWNSTREAM,
         Cleanup Input_side]"
  have h1: "record_input ?pin" by (simp add: init_def)
  have h2: "\<not> record_input ?pout" by (simp add: init_def)
  have h3: "recorder ?pin = Some 0" by (simp add: init_def)
  have h4: "recorder ?pout = Some 0" by (simp add: init_def)
  have h5: "delivered Input_side ?evs =
              StartFrame # [AudioFrame InputAudioRawFrame [1, 2] 16000 1] @ [EndFrame]"
    by simp
  have h6: "delivered Output_side ?evs =
              StartFrame # [AudioFrame OutputAudioRawFrame [3, 4] 24000 1] @ [EndFrame]"
    by simp
  have h7: "list_all is_audio [AudioFrame InputAudioRawFrame [1, 2] 16000 1]" by simp
  have h8: "list_all is_audio [AudioFrame OutputAudioRawFrame [3, 4] 24000 1]" by simp
  from h1 h2 h3 h4 shared_recorder_stopped_once [OF h1 h2 h3 h4 h5 h6 h7 h8]
  show ?thesis by blast
qed

text \<open>
  Claim C10. An output-side processor never clears its recorder reference when it
  processes frames: an end frame leaves the reference attached, so that an output audio
  frame or a legacy audio frame that arrives after the end frame is still recorded with
  \<^verbatim>\<open>record_output_audio\<close>.
\<close>

theorem output_side_keeps_recorder:
  assumes "\<not> record_input self"
  shows "recorder (fst (feed self fs)) = recorder self
         \<and> recorder (fst (process_frame self EndFrame d)) = recorder self
         \<and> (\<forall>r. recorder self = Some r \<longrightarrow>
              calls (snd (process_frame (fst (feed self (fs @ [(EndFrame, d)])))
                            (AudioFrame OutputAudioRawFrame audio sr nc) d'))
                = [(r, record_output_audio audio)]
              \<and> calls (snd (process_frame (fst (feed self (fs @ [(EndFrame, d)])))
                            (AudioFrame AudioRawFrame audio sr nc) d'))
                = [(r, record_output_audio audio)])"
  using assms
  by (simp add: feed_output_side process_frame_output_side output_side_records)

theorem output_side_keeps_recorder_witness:
  "\<not> record_input \<lparr>enable_recording = True, client_id = ''c1'', record_input = False,
                    recorder = Some 7\<rparr>
   \<and> recorder (fst (process_frame \<lparr>enable_recording = True, client_id = ''c1'',
                      record_input = False, recorder = Some 7\<rparr> EndFrame DOWNSTREAM)) = Some 7
   \<and> calls (snd (process_frame
         (fst (feed \<lparr>enable_recording = True, client_id = ''c1'', record_input = False,
                      recorder = Some 7\<rparr> ([(StartFrame, DOWNSTREAM)] @ [(EndFrame, DOWNSTREAM)])))
         (AudioFrame OutputAudioRawFrame [5, 6] 24000 1) DOWNSTREAM))
       = [(7, record_output_audio [5, 6])]"
proof -
  let ?p = "\<lparr>enable_recording = True, client_id = ''c1'', record_input = False,
              recorder = Some (7::nat)\<rparr>"
  have a: "\<not> record_input ?p" by simp
  have b: "recorder ?p = Some 7" by simp
  from a b output_side_keeps_recorder
    [OF a, of "[(StartFrame, DOWNSTREAM)]" DOWNSTREAM "[5, 6]" 24000 1 DOWNSTREAM]
  show ?thesis by (simp only: simp_thms) 
qed

subsection \<open>Construction\<close>

text \<open>
  Claim C9. The constructor creates a new recorder and calls \<^verbatim>\<open>start_recording\<close> on it,
  exactly once and with the processor's client id, if and only if recording is enabled
  and no shared recorder was passed in. With a shared recorder passed in, the constructor
  adopts it and calls nothing. The client id is the one given, or \<^verbatim>\<open>"unknown"\<close> for
  none or an empty one.
\<close>

theorem init_starts_own_recorder:
  "((New_recorder fresh \<in> set (snd (init enable cid rec_input shared fresh))
      \<and> calls (snd (init enable cid rec_input shared fresh))
          = [(fresh, start_recording (client_id (fst (init enable cid rec_input shared fresh))))])
     \<longleftrightarrow> (enable \<and> shared = None))
   \<and> (\<not> (enable \<and> shared = None) \<longrightarrow> snd (init enable cid rec_input shared fresh) = [])
   \<and> (enable \<and> shared = None \<longrightarrow>
        recorder (fst (init enable cid rec_input shared fresh)) = Some fresh)
   \<and> (shared = Some r \<longrightarrow>
        recorder (fst (init enable cid rec_input shared fresh)) = Some r
        \<and> snd (init enable cid rec_input shared fresh) = [])
   \<and> client_id (fst (init enable cid rec_input shared fresh))
        = (case cid of None \<Rightarrow> ''unknown'' | Some s \<Rightarrow> if s = [] then ''unknown'' else s)"
  by (auto simp: init_def Let_def)

theorem init_starts_own_recorder_witness:
  "calls (snd (init True (Some ''kitchen'') True None 3)) = [(3, start_recording ''kitchen'')]
   \<and> snd (init True (Some ''kitchen'') False (Some 3) 4) = []
   \<and> recorder (fst (init True (Some ''kitchen'') False (Some 3) 4)) = Some 3"
proof -
  have "client_id (fst (init True (Some ''kitchen'') True None 3)) = ''kitchen''"
    by (simp add: init_def)
  with init_starts_own_recorder [of 3 True "Some ''kitchen''" True None 3]
    init_starts_own_recorder [of 4 True "Some ''kitchen''" False "Some 3" 3]
  show ?thesis by simp
qed

text \<open>
  Claim C1, as stated: a processor constructed with recording disabled never calls a
  recorder method, whatever frames it is fed, also when a shared recorder was passed to
  the constructor. This fails for the shared recorder: the flag only guards the creation
  of a recorder in the constructor, and a processor that adopted a shared recorder
  records to it and, on the input side, stops it.
\<close>

theorem disabled_recording_counterexample:
  "enable_recording (fst (init False None True (Some 0) 1)) = False
   \<and> calls (snd (init False None True (Some 0) 1)) = []
   \<and> calls (snd (feed (fst (init False None True (Some 0) 1))
        [(StartFrame, DOWNSTREAM), (AudioFrame InputAudioRawFrame [1, 2] 16000 1, DOWNSTREAM),
         (EndFrame, DOWNSTREAM)]))
     = [(0, record_input_audio [1, 2]), (0, stop_recording)]"
  by (simp add: init_def process_frame_def Let_def)

text \<open>
  Claim C1, amended: what a processor constructed with recording disabled does to a
  recorder is decided by the shared recorder alone. The constructor performs no effect
  and keeps the reference it was given. Without a shared recorder the processor never
  calls a recorder method, on no sequence of frames and not in \<^verbatim>\<open>cleanup\<close>. With a
  shared recorder it adopts it and behaves like an enabled processor holding it: an
  input frame is recorded on the input side and skipped on the output side, an output
  frame the other way round, a legacy frame is recorded by the processor's side, an end
  frame and \<^verbatim>\<open>cleanup\<close> call \<^verbatim>\<open>stop_recording\<close> on the input side and nothing on the
  output side, and any sequence of frames gives the very effects it gives an enabled
  processor constructed with the same arguments. In no case does a frame make the
  processor call \<^verbatim>\<open>start_recording\<close>.
\<close>

theorem disabled_recording_follows_recorder:
  fixes cid :: "string option" and rec_input :: bool and shared :: "recorder_ref option"
    and fresh :: recorder_ref and p :: processor
  defines "p \<equiv> fst (init False cid rec_input shared fresh)"
  shows "snd (init False cid rec_input shared fresh) = []
   \<and> recorder p = shared
   \<and> (shared = None \<longrightarrow>
        calls (snd (feed p fs)) = [] \<and> calls (snd (cleanup (fst (feed p fs)))) = [])
   \<and> (\<forall>r. shared = Some r \<longrightarrow>
        calls (snd (process_frame p (AudioFrame InputAudioRawFrame audio sr nc) d))
          = (if rec_input then [(r, record_input_audio audio)] else [])
        \<and> calls (snd (process_frame p (AudioFrame OutputAudioRawFrame audio sr nc) d))
          = (if rec_input then [] else [(r, record_output_audio audio)])
        \<and> calls (snd (process_frame p (AudioFrame AudioRawFrame audio sr nc) d))
          = [(r, if rec_input then record_input_audio audio else record_output_audio audio)]
        \<and> calls (snd (process_frame p EndFrame d))
          = (if rec_input then [(r, stop_recording)] else [])
        \<and> calls (snd (cleanup p)) = (if rec_input then [(r, stop_recording)] else [])
        \<and> snd (feed p fs) = snd (feed (fst (init True cid rec_input shared fresh)) fs))
   \<and> (r', start_recording s) \<notin> set (calls (snd (feed p fs)))"
proof -
  have a: "snd (init False cid rec_input shared fresh) = []"
    by (simp add: init_disabled)
  have b: "recorder p = shared"
    by (simp add: p_def init_disabled)
  have ri: "record_input p = rec_input"
    by (simp add: p_def init_disabled)
  have c: "calls (snd (feed p fs)) = [] \<and> calls (snd (cleanup (fst (feed p fs)))) = []"
    if "shared = None"
  proof -
    from that b have none: "recorder p = None" by simp
    from feed_no_recorder [OF none, of fs] none show ?thesis by (simp add: cleanup_def)
  qed
  have e: "calls (snd (process_frame p (AudioFrame InputAudioRawFrame audio sr nc) d))
          = (if rec_input then [(r, record_input_audio audio)] else [])
        \<and> calls (snd (process_frame p (AudioFrame OutputAudioRawFrame audio sr nc) d))
          = (if rec_input then [] else [(r, record_output_audio audio)])
        \<and> calls (snd (process_frame p (AudioFrame AudioRawFrame audio sr nc) d))
          = [(r, if rec_input then record_input_audio audio else record_output_audio audio)]
        \<and> calls (snd (process_frame p EndFrame d))
          = (if rec_input then [(r, stop_recording)] else [])
        \<and> calls (snd (cleanup p)) = (if rec_input then [(r, stop_recording)] else [])
        \<and> snd (feed p fs) = snd (feed (fst (init True cid rec_input shared fresh)) fs)"
    if "shared = Some r" for r
  proof -
    from that b have some: "recorder p = Some r" by simp
    have "snd (feed p fs) = snd (feed (fst (init True cid rec_input shared fresh)) fs)"
      unfolding p_def that by (rule feed_init_shared)
    with some ri show ?thesis
      by (simp add: process_frame_def cleanup_def Let_def calls_append)
  qed
  from a b c e feed_never_starts [of r' s p fs] show ?thesis by blast
qed

theorem disabled_recording_follows_recorder_witness:
  "calls (snd (feed (fst (init False (Some ''c1'') True None 0))
      [(StartFrame, DOWNSTREAM), (AudioFrame InputAudioRawFrame [1, 2] 16000 1, DOWNSTREAM),
       (AudioFrame AudioRawFrame [3] 16000 1, DOWNSTREAM), (EndFrame, DOWNSTREAM)])) = []
   \<and> calls (snd (process_frame (fst (init False (Some ''c1'') True (Some 5) 0))
        (AudioFrame InputAudioRawFrame [1, 2] 16000 1) DOWNSTREAM))
       = [(5, record_input_audio [1, 2])]
   \<and> calls (snd (process_frame (fst (init False (Some ''c1'') True (Some 5) 0))
        EndFrame DOWNSTREAM)) = [(5, stop_recording)]
   \<and> calls (snd (cleanup (fst (init False (Some ''c1'') True (Some 5) 0))))
       = [(5, stop_recording)]"
proof -
  have n: "(None :: recorder_ref option) = None" by simp
  have s: "Some (5::nat) = Some 5" by simp
  from n s
    disabled_recording_follows_recorder
      [where cid = "Some ''c1''" and rec_input = True and shared = None and fresh = 0
         and fs = "[(StartFrame, DOWNSTREAM),
                    (AudioFrame InputAudioRawFrame [1, 2] 16000 1, DOWNSTREAM),
                    (AudioFrame AudioRawFrame [3] 16000 1, DOWNSTREAM), (EndFrame, DOWNSTREAM)]"]
    disabled_recording_follows_recorder
      [where cid = "Some ''c1''" and rec_input = True and shared = "Some 5" and fresh = 0
         and fs = "[]" and audio = "[1, 2]" and sr = 16000 and nc = 1 and d = DOWNSTREAM]
  show ?thesis by simp
qed

subsection \<open>The sample count\<close>

text \<open>
  Claim C7. For an audio frame of \<open>L\<close> bytes the sample count is \<open>L div 2\<close>, rounded
  down: half of \<open>L\<close> for even \<open>L\<close> and \<open>(L - 1) div 2\<close> for odd \<open>L\<close>. Every sample
  count that processing the frame logs is this number. The count reaches the log lines
  only: with any other count in its place the processor ends in the same state and
  performs the same recorder calls and pushes.
\<close>

theorem sample_count_floor:
  "num_samples bs = length bs div 2
   \<and> (even (length bs) \<longrightarrow> 2 * num_samples bs = length bs)
   \<and> (odd (length bs) \<longrightarrow>
        num_samples bs = (length bs - 1) div 2 \<and> 2 * num_samples bs + 1 = length bs)
   \<and> set (logged_samples (snd (process_frame self (AudioFrame cls bs sr nc) d)))
        \<subseteq> {length bs div 2}
   \<and> fst (process_frame_with ns self f d) = fst (process_frame self f d)
   \<and> not_logs (snd (process_frame_with ns self f d)) = not_logs (snd (process_frame self f d))"
proof -
  have a: "num_samples bs = length bs div 2" by (simp add: num_samples_def)
  have b: "even (length bs) \<longrightarrow> 2 * num_samples bs = length bs"
    by (auto simp: num_samples_def)
  have c: "odd (length bs) \<longrightarrow>
        num_samples bs = (length bs - 1) div 2 \<and> 2 * num_samples bs + 1 = length bs"
    by (auto simp: num_samples_def elim!: oddE)
  have e: "set (logged_samples (snd (process_frame self (AudioFrame cls bs sr nc) d)))
        \<subseteq> {length bs div 2}"
    by (auto simp: logged_samples_audio num_samples_def split: option.splits)
  from a b c e process_frame_with_control_flow [of ns self f d num_samples]
  show ?thesis unfolding process_frame_def by blast
qed

theorem sample_count_floor_witness:
  "num_samples [1, 2, 3, 4, 5] = 2
   \<and> logged_samples (snd (process_frame \<lparr>enable_recording = True, client_id = ''c1'',
         record_input = True, recorder = Some 7\<rparr>
         (AudioFrame InputAudioRawFrame [1, 2, 3, 4, 5] 16000 1) DOWNSTREAM)) = [2]"
proof -
  let ?p = "\<lparr>enable_recording = True, client_id = ''c1'', record_input = True,
              recorder = Some (7::nat)\<rparr>"
  have "logged_samples (snd (process_frame ?p
          (AudioFrame InputAudioRawFrame [1, 2, 3, 4, 5] 16000 1) DOWNSTREAM))
        = [num_samples [1, 2, 3, 4, 5]]"
    by (simp add: process_frame_def Let_def)
  moreover have "length [1::byte, 2, 3, 4, 5] div 2 = 2" by simp
  ultimately show ?thesis
    using sample_count_floor [of "[1, 2, 3, 4, 5]" ?p InputAudioRawFrame 16000 1 DOWNSTREAM
            num_samples StartFrame]
    by simp
qed

end
